theory Spec2Isabelle
  imports Complex_Main
begin

text \<open>
  The tag-based validator \<open>lakery\<close>: the splitter of the tag grammar in its two copies
  (runtime engine and static analyzer), the registry with its built-in validators
  \<open>min\<close>, \<open>max\<close> and \<open>required\<close>, the runtime engine (\<open>Validate\<close>, \<open>validateStruct\<close>,
  \<open>proceedTags\<close>) and the tag checks of the static analyzer, followed by what holds of them.
\<close>

section \<open>Strings as the Go code sees them\<close>

text \<open>
  A Go string is a sequence of bytes, modelled as \<^typ>\<open>string\<close> (a list of
  \<^typ>\<open>char\<close>, one per byte). \<open>len(s)\<close> is \<^term>\<open>length s\<close> and the slice
  \<open>s[a:b]\<close> is \<open>take (b - a) (drop a s)\<close>.
\<close>

definition slice :: "string \<Rightarrow> nat \<Rightarrow> nat \<Rightarrow> string" where
  "slice s a b = take (b - a) (drop a s)"

text \<open>\<open>strings.Join(parts, ",")\<close> of the Go standard library.\<close>

fun join_comma :: "string list \<Rightarrow> string" where
  "join_comma [] = []"
| "join_comma [p] = p"
| "join_comma (p # q # ps) = p @ CHR '','' # join_comma (q # ps)"

section \<open>The Go library functions the code calls\<close>

text \<open>
  \<open>strings.TrimSpace\<close> removes the leading and the trailing runes for which
  \<open>unicode.IsSpace\<close> holds. On bytes these runes are the encodings below: the six ASCII
  ones (tab, line feed, vertical tab, form feed, carriage return, space), U+0085 and
  U+00A0 (two bytes), U+1680, U+2000 to U+200A, U+2028, U+2029, U+202F, U+205F and
  U+3000 (three bytes). A byte that starts no valid encoding is the rune U+FFFD, which is
  not a space, so trimming stops there.
\<close>

definition space_runes :: "string list" where
  "space_runes =
     [[CHR 0x09], [CHR 0x0A], [CHR 0x0B], [CHR 0x0C], [CHR 0x0D], [CHR 0x20],
      [CHR 0xC2, CHR 0x85], [CHR 0xC2, CHR 0xA0],
      [CHR 0xE1, CHR 0x9A, CHR 0x80],
      [CHR 0xE2, CHR 0x80, CHR 0x80], [CHR 0xE2, CHR 0x80, CHR 0x81],
      [CHR 0xE2, CHR 0x80, CHR 0x82], [CHR 0xE2, CHR 0x80, CHR 0x83],
      [CHR 0xE2, CHR 0x80, CHR 0x84], [CHR 0xE2, CHR 0x80, CHR 0x85],
      [CHR 0xE2, CHR 0x80, CHR 0x86], [CHR 0xE2, CHR 0x80, CHR 0x87],
      [CHR 0xE2, CHR 0x80, CHR 0x88], [CHR 0xE2, CHR 0x80, CHR 0x89],
      [CHR 0xE2, CHR 0x80, CHR 0x8A],
      [CHR 0xE2, CHR 0x80, CHR 0xA8], [CHR 0xE2, CHR 0x80, CHR 0xA9],
      [CHR 0xE2, CHR 0x80, CHR 0xAF], [CHR 0xE2, CHR 0x81, CHR 0x9F],
      [CHR 0xE3, CHR 0x80, CHR 0x80]]"

text \<open>The first of the given byte patterns that the string starts with, if any.\<close>

definition leading :: "string list \<Rightarrow> string \<Rightarrow> string option" where
  "leading pats s = find (\<lambda>p. p \<noteq> [] \<and> take (length p) s = p) pats"

lemma leading_shorter:
  assumes "leading pats s = Some p"
  shows "length s - length p < length s"
proof -
  from assms have p: "p \<noteq> []" "take (length p) s = p"
    by (auto simp: leading_def find_Some_iff)
  from p have "s \<noteq> []" by auto
  with p(1) show ?thesis by simp
qed

function trim_leading :: "string list \<Rightarrow> string \<Rightarrow> string" where
  "trim_leading pats s =
     (case leading pats s of None \<Rightarrow> s | Some p \<Rightarrow> trim_leading pats (drop (length p) s))"
  by pat_completeness auto
termination
  by (relation "measure (\<lambda>(pats, s). length s)") (auto simp: leading_shorter)

declare trim_leading.simps [simp del]

lemma length_trim_leading: "length (trim_leading pats s) \<le> length s"
proof (induction pats s rule: trim_leading.induct)
  case (1 pats s)
  show ?case
  proof (cases "leading pats s")
    case None
    then show ?thesis by (simp add: trim_leading.simps [of pats s])
  next
    case (Some p)
    with "1" have "length (trim_leading pats (drop (length p) s)) \<le> length (drop (length p) s)"
      by simp
    with Some show ?thesis by (simp add: trim_leading.simps [of pats s])
  qed
qed

definition TrimSpace :: "string \<Rightarrow> string" where
  "TrimSpace s =
     rev (trim_leading (map rev space_runes) (rev (trim_leading space_runes s)))"

lemma length_TrimSpace: "length (TrimSpace s) \<le> length s"
proof -
  have "length (TrimSpace s) \<le> length (trim_leading space_runes s)"
    unfolding TrimSpace_def
    using length_trim_leading [of "map rev space_runes" "rev (trim_leading space_runes s)"]
    by simp
  also have "\<dots> \<le> length s" by (rule length_trim_leading)
  finally show ?thesis .
qed

text \<open>
  \<open>strings.SplitN(s, "=", 2)\<close>: the string itself when it holds no \<open>=\<close>, else what is
  before the first \<open>=\<close> and what is after it.
\<close>

definition SplitN_eq2 :: "string \<Rightarrow> string list" where
  "SplitN_eq2 s =
     (if CHR ''='' \<in> set s
      then [takeWhile (\<lambda>c. c \<noteq> CHR ''='') s, tl (dropWhile (\<lambda>c. c \<noteq> CHR ''='') s)]
      else [s])"

text \<open>\<open>strings.HasPrefix\<close> and \<open>strings.HasSuffix\<close>.\<close>

definition HasPrefix :: "string \<Rightarrow> string \<Rightarrow> bool" where
  "HasPrefix s p = (take (length p) s = p)"

definition HasSuffix :: "string \<Rightarrow> string \<Rightarrow> bool" where
  "HasSuffix s p = (length p \<le> length s \<and> drop (length s - length p) s = p)"

text \<open>
  \<open>strconv.Atoi\<close>: an optional sign and then one or more decimal digits, nothing else;
  a syntax error and a value outside the range of \<open>int\<close> (64 bits here) are both errors,
  the \<open>None\<close> of the model.
\<close>

definition digit :: "char \<Rightarrow> int option" where
  "digit c = (let n = (of_char c :: int) in if 48 \<le> n \<and> n \<le> 57 then Some (n - 48) else None)"

fun digits :: "int \<Rightarrow> string \<Rightarrow> int option" where
  "digits acc [] = Some acc"
| "digits acc (c # cs) =
     (case digit c of None \<Rightarrow> None | Some d \<Rightarrow> digits (acc * 10 + d) cs)"

definition Atoi :: "string \<Rightarrow> int option" where
  "Atoi s =
     (let neg = (s \<noteq> [] \<and> hd s = CHR ''-'');
          ds = (if s \<noteq> [] \<and> (hd s = CHR ''-'' \<or> hd s = CHR ''+'') then tl s else s)
      in if ds = [] then None
         else case digits 0 ds of
                None \<Rightarrow> None
              | Some n \<Rightarrow>
                  let v = (if neg then - n else n)
                  in if v < - (2 ^ 63) \<or> 2 ^ 63 - 1 < v then None else Some v)"

text \<open>
  The removal of one pair of outer braces, written twice in the source (\<open>proceedTags\<close> and
  \<open>validateEachTag\<close>). A string that starts with \<open>{\<close> and ends with \<open>}\<close> has at least two
  bytes, so the slice expression \<open>inner[1 : len(inner)-1]\<close> is always in range.
\<close>

definition strip_braces :: "string \<Rightarrow> string" where
  "strip_braces inner =
     (if HasPrefix inner ''{'' \<and> HasSuffix inner ''}''
      then TrimSpace (slice inner 1 (length inner - 1)) else inner)"

section \<open>The grammar splitter of the runtime engine\<close>

text \<open>
  \<open>splitTopLevelByComma\<close> of the package \<open>lakery\<close>. Its errors are
  \<open>fmt.Errorf("unopened braces in %q", s)\<close> and \<open>fmt.Errorf("unclosed braces in %q", s)\<close>;
  the model keeps the condition and the quoted string.
\<close>

datatype brace_error = UnopenedBraces string | UnclosedBraces string

text \<open>
  The loop \<open>for i, r := range s\<close> with its three variables \<open>parts\<close>, \<open>depth\<close> and
  \<open>last\<close> (here \<open>last0\<close>, since \<open>last\<close> is a list function of HOL). The source
  ranges over the runes of \<open>s\<close>, \<open>i\<close> being the byte offset of the rune; the three runes
  the switch looks at are ASCII, and an ASCII byte is never part of the encoding of
  another rune, so the switch fires exactly at the bytes \<open>{\<close>, \<open>}\<close> and \<open>,\<close> and the loop
  is the same walk over the bytes. The second argument is what is left of \<open>s\<close> from
  offset \<open>i\<close> on.
\<close>

fun split_loop :: "string \<Rightarrow> string \<Rightarrow> nat \<Rightarrow> string list \<times> int \<times> nat \<Rightarrow> string list \<times> int \<times> nat" where
  "split_loop s [] i st = st"
| "split_loop s (r # rs) i (parts, depth, last0) =
     split_loop s rs (i + 1)
       (if r = CHR ''{'' then (parts, depth + 1, last0)
        else if r = CHR ''}'' then (parts, depth - 1, last0)
        else if r = CHR '','' then
          (if depth = 0 then (parts @ [slice s last0 i], depth, i + 1)
           else (parts, depth, last0))
        else (parts, depth, last0))"

definition splitTopLevelByComma :: "string \<Rightarrow> brace_error + string list" where
  "splitTopLevelByComma s =
     (case split_loop s s 0 ([], 0, 0) of
        (parts, depth, last0) \<Rightarrow>
          let parts = parts @ [slice s last0 (length s)] in
          if depth < 0 then Inl (UnopenedBraces s)
          else if depth > 0 then Inl (UnclosedBraces s)
          else Inr parts)"

section \<open>The grammar splitter of the static analyzer\<close>

text \<open>
  \<open>TagValidator.splitTopLevelByComma\<close> of the analyzer's \<open>main\<close> package, translated from
  its own text; the receiver is not read.
\<close>

fun tv_split_loop :: "string \<Rightarrow> string \<Rightarrow> nat \<Rightarrow> string list \<times> int \<times> nat \<Rightarrow> string list \<times> int \<times> nat" where
  "tv_split_loop s [] i st = st"
| "tv_split_loop s (r # rs) i (parts, depth, last0) =
     tv_split_loop s rs (i + 1)
       (if r = CHR ''{'' then (parts, depth + 1, last0)
        else if r = CHR ''}'' then (parts, depth - 1, last0)
        else if r = CHR '','' then
          (if depth = 0 then (parts @ [slice s last0 i], depth, i + 1)
           else (parts, depth, last0))
        else (parts, depth, last0))"

definition tv_splitTopLevelByComma :: "string \<Rightarrow> brace_error + string list" where
  "tv_splitTopLevelByComma s =
     (case tv_split_loop s s 0 ([], 0, 0) of
        (parts, depth, last0) \<Rightarrow>
          let parts = parts @ [slice s last0 (length s)] in
          if depth < 0 then Inl (UnopenedBraces s)
          else if depth > 0 then Inl (UnclosedBraces s)
          else Inr parts)"

section \<open>What the splitter returns\<close>

text \<open>
  The depth counter on its own: the net number of opening braces of a string. It is what
  the loop's \<open>depth\<close> holds after the scan.
\<close>

fun brace_depth :: "string \<Rightarrow> int" where
  "brace_depth [] = 0"
| "brace_depth (r # rs) =
     (if r = CHR ''{'' then 1 else if r = CHR ''}'' then - 1 else 0) + brace_depth rs"

lemma split_loop_depth:
  "fst (snd (split_loop s rs i (parts, depth, last0))) = depth + brace_depth rs"
  by (induction rs arbitrary: i parts depth last0) auto

lemma tv_split_loop_eq: "tv_split_loop s rs i st = split_loop s rs i st"
proof (induction rs arbitrary: i st)
  case Nil
  show ?case by simp
next
  case (Cons r rs)
  obtain parts depth last0 where st: "st = (parts, depth, last0)"
    by (cases st) auto
  show ?case unfolding st by (simp add: Cons.IH)
qed

lemma join_comma_Cons: "qs \<noteq> [] \<Longrightarrow> join_comma (p # qs) = p @ CHR '','' # join_comma qs"
  by (cases qs) simp_all

lemma join_comma_snoc: "join_comma (ps @ [c]) = concat (map (\<lambda>p. p @ '','') ps) @ c"
  by (induction ps) (simp_all add: join_comma_Cons)

text \<open>
  The loop's invariant: the segments cut so far, followed by the segment being read
  (\<open>s[last:i]\<close>), joined with commas, are the part of \<open>s\<close> already scanned.
\<close>

lemma split_loop_join:
  assumes "s = pre @ rs" and "i = length pre" and "last0 \<le> i"
    and "split_loop s rs i (parts, depth, last0) = (parts', depth', last')"
  shows "join_comma (parts' @ [slice s last' (length s)]) =
         join_comma (parts @ [drop last0 pre]) @ rs"
  using assms
proof (induction rs arbitrary: pre i parts depth last0)
  case Nil
  then show ?case by (simp add: slice_def)
next
  case (Cons r rs)
  have s: "s = (pre @ [r]) @ rs" and i: "i + 1 = length (pre @ [r])"
    using Cons.prems by simp_all
  show ?case
  proof (cases "r = CHR '','' \<and> depth = 0")
    case True
    with Cons.prems
    have run: "split_loop s rs (i + 1) (parts @ [slice s last0 i], depth, i + 1) =
               (parts', depth', last')"
      by simp
    have cur: "slice s last0 i = drop last0 pre"
      using Cons.prems by (simp add: slice_def)
    have "join_comma (parts' @ [slice s last' (length s)]) =
          join_comma ((parts @ [slice s last0 i]) @ [drop (i + 1) (pre @ [r])]) @ rs"
      by (rule Cons.IH [OF s i _ run]) simp
    also have "drop (i + 1) (pre @ [r]) = []"
      using Cons.prems by simp
    also have "join_comma ((parts @ [slice s last0 i]) @ [[]]) =
               join_comma (parts @ [drop last0 pre]) @ '',''"
      unfolding join_comma_snoc cur by simp
    finally show ?thesis
      using True by simp
  next
    case False
    then obtain d where
      run: "split_loop s rs (i + 1) (parts, d, last0) = (parts', depth', last')"
      using Cons.prems by (auto split: if_splits)
    have "join_comma (parts' @ [slice s last' (length s)]) =
          join_comma (parts @ [drop last0 (pre @ [r])]) @ rs"
      by (rule Cons.IH [OF s i _ run]) (use Cons.prems in simp)
    then show ?thesis
      using Cons.prems by (simp add: join_comma_snoc)
  qed
qed

lemma split_join: "splitTopLevelByComma s = Inr parts \<Longrightarrow> join_comma parts = s"
proof -
  assume ok: "splitTopLevelByComma s = Inr parts"
  obtain ps d l where run: "split_loop s s 0 ([], 0, 0) = (ps, d, l)"
    by (cases "split_loop s s 0 ([], 0, 0)") auto
  from ok run have parts: "parts = ps @ [slice s l (length s)]"
    by (auto simp: splitTopLevelByComma_def Let_def split: if_splits)
  have "join_comma (ps @ [slice s l (length s)]) = join_comma ([] @ [drop 0 []]) @ s"
    by (rule split_loop_join [OF _ _ _ run]) simp_all
  with parts show ?thesis by simp
qed

lemma length_le_join: "p \<in> set ps \<Longrightarrow> length p \<le> length (join_comma ps)"
  by (induction ps rule: join_comma.induct) auto

lemma split_part_length:
  "splitTopLevelByComma s = Inr parts \<Longrightarrow> p \<in> set parts \<Longrightarrow> length p \<le> length s"
  using length_le_join [of p parts] by (simp add: split_join)

lemma tv_split_eq: "tv_splitTopLevelByComma s = splitTopLevelByComma s"
  by (simp add: tv_splitTopLevelByComma_def splitTopLevelByComma_def tv_split_loop_eq)

lemma split_depth:
  "splitTopLevelByComma s =
     (if brace_depth s < 0 then Inl (UnopenedBraces s)
      else if 0 < brace_depth s then Inl (UnclosedBraces s)
      else Inr (fst (split_loop s s 0 ([], 0, 0)) @
                [slice s (snd (snd (split_loop s s 0 ([], 0, 0)))) (length s)]))"
proof -
  obtain ps d l where run: "split_loop s s 0 ([], 0, 0) = (ps, d, l)"
    by (cases "split_loop s s 0 ([], 0, 0)") auto
  have "d = brace_depth s"
    using split_loop_depth [of s s 0 "[]" 0 0] run by simp
  with run show ?thesis
    by (simp add: splitTopLevelByComma_def Let_def)
qed

section \<open>The static analyzer\<close>

text \<open>
  A diagnostic of the analyzer. Its message is one of the texts the analyzer formats; the
  constructor keeps what the text is formatted from. The position is the one
  \<open>tv.fset.Position(pos)\<close> resolves, taken as given.
\<close>

datatype tag_message =
    SplitError brace_error
  | EmptyValidatorName
  | InvalidSyntaxDidYouMean string string
  | UnknownValidator string
  | InvalidSyntaxInEach brace_error
  | ExpectsIntegerParameter string string
  | RequiredAcceptsNoParameters

record Position =
  Filename :: string
  Line :: int
  Column :: int

record TagError =
  File :: string
  Line :: int
  Column :: int
  Field :: string
  Tag :: string
  Message :: tag_message

text \<open>
  \<open>TagValidator\<close>: the custom validators found by the discovery pass (the map
  \<open>customValidators\<close>, read with \<open>false\<close> for a missing key) and the diagnostics so far.
\<close>

record TagValidator =
  customValidators :: "string \<Rightarrow> bool"
  errors :: "TagError list"

definition NewTagValidator :: TagValidator where
  "NewTagValidator = \<lparr>customValidators = (\<lambda>nm. False), errors = []\<rparr>"

definition builtinValidators :: "string \<Rightarrow> bool" where
  "builtinValidators nm =
     (nm = ''min'' \<or> nm = ''max'' \<or> nm = ''required'' \<or> nm = ''each'' \<or> nm = ''dive'')"

definition addError :: "TagValidator \<Rightarrow> Position \<Rightarrow> string \<Rightarrow> string \<Rightarrow> tag_message \<Rightarrow> TagValidator" where
  "addError tv pos field tag message =
     tv\<lparr>errors := errors tv @
       [\<lparr>File = Filename pos, Line = Position.Line pos, Column = Position.Column pos,
         Field = field, Tag = tag, Message = message\<rparr>]\<rparr>"

definition validatorExists :: "TagValidator \<Rightarrow> string \<Rightarrow> bool" where
  "validatorExists tv nm = (builtinValidators nm \<or> customValidators tv nm)"

definition validateValidatorParam ::
  "TagValidator \<Rightarrow> Position \<Rightarrow> string \<Rightarrow> string \<Rightarrow> string \<Rightarrow> string \<Rightarrow> TagValidator" where
  "validateValidatorParam tv pos fieldName fullTag validator param' =
     (if validator = ''min'' \<or> validator = ''max'' then
        (case Atoi param' of
           None \<Rightarrow> addError tv pos fieldName fullTag (ExpectsIntegerParameter validator param')
         | Some n \<Rightarrow> tv)
      else if validator = ''required'' then
        (if param' \<noteq> [] then addError tv pos fieldName fullTag RequiredAcceptsNoParameters
         else tv)
      else tv)"

lemma SplitN_eq2_second:
  "length (SplitN_eq2 s) = 2 \<Longrightarrow> length (TrimSpace (SplitN_eq2 s ! 1)) < length s"
proof -
  assume two: "length (SplitN_eq2 s) = 2"
  then have mem: "CHR ''='' \<in> set s"
    by (auto simp: SplitN_eq2_def split: if_splits)
  then have ne: "dropWhile (\<lambda>c. c \<noteq> CHR ''='') s \<noteq> []"
    by simp
  have "length (dropWhile (\<lambda>c. c \<noteq> CHR ''='') s) \<le> length s"
    by (rule length_dropWhile_le)
  with ne have "length (tl (dropWhile (\<lambda>c. c \<noteq> CHR ''='') s)) < length s"
    by (cases "dropWhile (\<lambda>c. c \<noteq> CHR ''='') s") auto
  with mem have "length (SplitN_eq2 s ! 1) < length s"
    by (simp add: SplitN_eq2_def)
  with length_TrimSpace [of "SplitN_eq2 s ! 1"] show ?thesis by simp
qed

lemma each_param_measure:
  "length (SplitN_eq2 s) = 2 \<Longrightarrow>
   Suc (2 * length (TrimSpace (SplitN_eq2 s ! Suc 0))) < 2 * length s"
  using SplitN_eq2_second [of s] by simp

lemma length_strip_braces: "length (strip_braces s) \<le> length s"
proof -
  have "length (TrimSpace (slice s 1 (length s - 1))) \<le> length (slice s 1 (length s - 1))"
    by (rule length_TrimSpace)
  also have "\<dots> \<le> length s" by (simp add: slice_def)
  finally show ?thesis by (simp add: strip_braces_def)
qed

lemma inner_part_length:
  assumes "tv_splitTopLevelByComma (strip_braces s) = Inr parts" and "p \<in> set parts"
  shows "length (TrimSpace p) \<le> length s"
proof -
  have "length (TrimSpace p) \<le> length p" by (rule length_TrimSpace)
  also have "\<dots> \<le> length (strip_braces s)"
    using assms by (simp add: tv_split_eq split_part_length)
  also have "\<dots> \<le> length s" by (rule length_strip_braces)
  finally show ?thesis .
qed

text \<open>
  \<open>validateTagPart\<close> and \<open>validateEachTag\<close> call each other: the parameter of an each
  segment is split again and every inner part is validated as a part of its own.
\<close>

function validateTagPart ::
    "TagValidator \<Rightarrow> Position \<Rightarrow> string \<Rightarrow> string \<Rightarrow> string \<Rightarrow> TagValidator"
  and validateEachTag ::
    "TagValidator \<Rightarrow> Position \<Rightarrow> string \<Rightarrow> string \<Rightarrow> string \<Rightarrow> TagValidator" where
  "validateTagPart tv pos fieldName fullTag part =
     (let kv = SplitN_eq2 part; key = TrimSpace (kv ! 0) in
      if key = [] then addError tv pos fieldName fullTag EmptyValidatorName
      else if key = ''each'' then
        (if length kv = 2 then validateEachTag tv pos fieldName fullTag (TrimSpace (kv ! 1))
         else tv)
      else if \<not> validatorExists tv key then
        (if HasPrefix key ''each:''
         then addError tv pos fieldName fullTag (InvalidSyntaxDidYouMean key (drop 5 key))
         else addError tv pos fieldName fullTag (UnknownValidator key))
      else if length kv = 2
        then validateValidatorParam tv pos fieldName fullTag key (TrimSpace (kv ! 1))
      else tv)"
| "validateEachTag tv pos fieldName fullTag value0 =
     (let value = strip_braces value0 in
      if value = [] then tv
      else case tv_splitTopLevelByComma value of
             Inl err \<Rightarrow> addError tv pos fieldName fullTag (InvalidSyntaxInEach err)
           | Inr innerParts \<Rightarrow>
               fold (\<lambda>innerPart0 tv.
                       let innerPart = TrimSpace innerPart0 in
                       if innerPart = [] then tv
                       else validateTagPart tv pos fieldName fullTag innerPart)
                 innerParts tv)"
  by pat_completeness auto
termination
  by (relation "measure (\<lambda>x. case x of
          Inl (tv, pos, fieldName, fullTag, part) \<Rightarrow> 2 * length part
        | Inr (tv, pos, fieldName, fullTag, value0) \<Rightarrow> 2 * length value0 + 1)")
     (auto simp: each_param_measure dest: inner_part_length)

declare validateTagPart.simps [simp del] validateEachTag.simps [simp del]

definition validateLakeryTag :: "TagValidator \<Rightarrow> Position \<Rightarrow> string \<Rightarrow> string \<Rightarrow> TagValidator" where
  "validateLakeryTag tv pos fieldName tag =
     (case tv_splitTopLevelByComma tag of
        Inl err \<Rightarrow> addError tv pos fieldName tag (SplitError err)
      | Inr parts \<Rightarrow>
          fold (\<lambda>part0 tv.
                  let part = TrimSpace part0 in
                  if part = [] then tv
                  else validateTagPart tv pos fieldName tag part)
            parts tv)"

section \<open>Values as reflection shows them\<close>

text \<open>
  What the engine and the built-in validators read of a \<open>reflect.Value\<close>: its kind and,
  by kind, its length, its number, its elements, what a pointer points to, or whether it
  is nil. The signed kinds carry \<open>rv.Int()\<close>, the unsigned ones \<open>rv.Uint()\<close>, the two
  float kinds \<open>rv.Float()\<close>. A struct carries its fields in declaration order, each with
  what the engine reads of its \<open>reflect.StructField\<close>: the name and the value of the
  \<open>lakery\<close> key of its tag (\<open>fieldType.Tag.Get("lakery")\<close>, the empty string when the key
  is absent). \<open>VOther\<close> stands for the remaining kinds (invalid, complex, chan, func,
  interface, unsafe pointer); its flag says whether the value is the zero value of its
  type.
\<close>

datatype gofloat = FNaN | FNegInf | FPosInf | FNum real

record StructField =
  Name :: string
  Tag :: string

datatype goval =
    VBool bool
  | VInt int
  | VUint nat
  | VFloat gofloat
  | VString string
  | VSlice "goval list option"
  | VArray "goval list"
  | VMap "(goval \<times> goval) list option"
  | VPointer "goval option"
  | VStruct "(StructField \<times> goval) list"
  | VOther bool

text \<open>\<open>rv.Len()\<close> on the four kinds the validators call it on (a nil slice or map has
  length 0); it is called on no other kind.\<close>

fun Len :: "goval \<Rightarrow> int" where
  "Len (VString s) = int (length s)"
| "Len (VArray xs) = int (length xs)"
| "Len (VSlice None) = 0"
| "Len (VSlice (Some xs)) = int (length xs)"
| "Len (VMap None) = 0"
| "Len (VMap (Some kvs)) = int (length kvs)"
| "Len _ = 0"

lemma size_field_value [termination_simp]:
  "f \<in> set fs \<Longrightarrow> size (snd f) < Suc (size_list (size_prod (\<lambda>t. 0) size) fs)"
proof (induction fs)
  case Nil
  then show ?case by simp
next
  case (Cons g fs)
  then show ?case by (cases f) auto
qed

text \<open>\<open>rv.IsZero()\<close>: a nil slice, map or pointer, an array or struct whose elements or
  fields are all zero, the number 0, the empty string, \<open>false\<close>.\<close>

fun IsZero :: "goval \<Rightarrow> bool" where
  "IsZero (VBool b) = (\<not> b)"
| "IsZero (VInt i) = (i = 0)"
| "IsZero (VUint u) = (u = 0)"
| "IsZero (VFloat f) = (f = FNum 0)"
| "IsZero (VString s) = (s = [])"
| "IsZero (VSlice xs) = (xs = None)"
| "IsZero (VArray xs) = list_all IsZero xs"
| "IsZero (VMap kvs) = (kvs = None)"
| "IsZero (VPointer p) = (p = None)"
| "IsZero (VStruct fs) = list_all (\<lambda>f. IsZero (snd f)) fs"
| "IsZero (VOther z) = z"

text \<open>
  The conversion \<open>float64(n)\<close> of an \<open>int\<close>: exact up to 53 bits, rounded to the nearest
  value with 53 significant bits (ties to even) above. The comparison of two floats is
  false as soon as one of them is not a number.
\<close>

function bitlen :: "int \<Rightarrow> nat" where
  "bitlen a = (if a \<le> 0 then 0 else Suc (bitlen (a div 2)))"
  by pat_completeness auto
termination
  by (relation "measure nat") auto

declare bitlen.simps [simp del]

definition float64 :: "int \<Rightarrow> gofloat" where
  "float64 n =
     (let a = \<bar>n\<bar>; e = bitlen a - 53 in
      if e = 0 then FNum (of_int n)
      else
        let q = a div 2 ^ e; r = a mod 2 ^ e; h = 2 ^ (e - 1);
            q' = (if h < r \<or> (r = h \<and> odd q) then q + 1 else q)
        in FNum (of_int (sgn n * (q' * 2 ^ e))))"

fun float_less :: "gofloat \<Rightarrow> gofloat \<Rightarrow> bool" where
  "float_less FNaN _ = False"
| "float_less _ FNaN = False"
| "float_less FNegInf y = (y \<noteq> FNegInf)"
| "float_less _ FNegInf = False"
| "float_less FPosInf _ = False"
| "float_less (FNum x) FPosInf = True"
| "float_less (FNum x) (FNum y) = (x < y)"

section \<open>Errors and panics\<close>

text \<open>
  Every error the package builds with \<open>fmt.Errorf\<close> or \<open>errors.New\<close> is a constructor
  that keeps what the message is formatted from (the two "is not applicable" messages
  also print the type, which the model leaves out). \<open>FieldValidationError\<close> is the error
  of \<open>defaultErrorFormat\<close>: the field's name, the wrapped error and the value received.
  \<open>OtherError\<close> is an error of a validator or formatter registered by the caller.
\<close>

datatype gerror =
    BraceError brace_error
  | EachOnlySliceOrArray
  | MinExpectsIntegerParam string
  | ShouldHaveLengthAtLeast int
  | ShouldBeAtLeast int
  | MinNotApplicable
  | MaxExpectsIntegerParam string
  | ShouldHaveLengthAtMost int
  | ShouldBeAtMost int
  | MaxNotApplicable
  | IsRequired
  | CannotValidateNil
  | CanOnlyValidateStructs
  | FieldValidationError string gerror goval
  | OtherError string

text \<open>
  A panic ends the call without a result. \<open>ParamNotSet\<close> is the panic of \<open>Value.Param\<close>
  (with the field's name), \<open>OtherPanic\<close> a panic of a validator or formatter registered
  by the caller.
\<close>

datatype panic = ParamNotSet string | OtherPanic string

text \<open>A call that returns a Go \<open>error\<close> (\<open>None\<close> is nil) or panics.\<close>

type_synonym outcome = "panic + gerror option"

section \<open>The value handed to a validator\<close>

record Value =
  val :: goval
  name :: string
  param :: string

definition Param :: "Value \<Rightarrow> panic + string" where
  "Param v = (if param v \<noteq> [] then Inr (param v) else Inl (ParamNotSet (name v)))"

section \<open>The built-in validators\<close>

text \<open>
  The \<open>switch k\<close> of \<open>builtinMin\<close>, on the value left after the pointer has been followed
  once. \<open>int64(min)\<close> is \<open>min\<close> itself; \<open>uint64(min)\<close> is \<open>min\<close> modulo \<open>2 ^ 64\<close>.
\<close>

fun min_switch :: "goval \<Rightarrow> int \<Rightarrow> gerror option" where
  "min_switch (VInt i) m = (if i < m then Some (ShouldBeAtLeast m) else None)"
| "min_switch (VUint u) m = (if int u < m mod 2 ^ 64 then Some (ShouldBeAtLeast m) else None)"
| "min_switch (VFloat f) m = (if float_less f (float64 m) then Some (ShouldBeAtLeast m) else None)"
| "min_switch (VBool b) m = Some MinNotApplicable"
| "min_switch (VPointer p) m = Some MinNotApplicable"
| "min_switch (VStruct fs) m = Some MinNotApplicable"
| "min_switch (VOther z) m = Some MinNotApplicable"
| "min_switch rv m = (if Len rv < m then Some (ShouldHaveLengthAtLeast m) else None)"

definition builtinMin :: "Value \<Rightarrow> outcome" where
  "builtinMin v =
     (case Param v of
        Inl p \<Rightarrow> Inl p
      | Inr minStr \<Rightarrow>
          (case Atoi minStr of
             None \<Rightarrow> Inr (Some (MinExpectsIntegerParam minStr))
           | Some m \<Rightarrow>
               (case val v of
                  VPointer None \<Rightarrow>
                    if m > 0 then Inr (Some (ShouldHaveLengthAtLeast m)) else Inr None
                | VPointer (Some rv) \<Rightarrow> Inr (min_switch rv m)
                | rv \<Rightarrow> Inr (min_switch rv m))))"

fun max_switch :: "goval \<Rightarrow> int \<Rightarrow> gerror option" where
  "max_switch (VInt i) m = (if i > m then Some (ShouldBeAtMost m) else None)"
| "max_switch (VUint u) m = (if int u > m mod 2 ^ 64 then Some (ShouldBeAtMost m) else None)"
| "max_switch (VFloat f) m = (if float_less (float64 m) f then Some (ShouldBeAtMost m) else None)"
| "max_switch (VBool b) m = Some MaxNotApplicable"
| "max_switch (VPointer p) m = Some MaxNotApplicable"
| "max_switch (VStruct fs) m = Some MaxNotApplicable"
| "max_switch (VOther z) m = Some MaxNotApplicable"
| "max_switch rv m = (if Len rv > m then Some (ShouldHaveLengthAtMost m) else None)"

definition builtinMax :: "Value \<Rightarrow> outcome" where
  "builtinMax v =
     (case Param v of
        Inl p \<Rightarrow> Inl p
      | Inr maxStr \<Rightarrow>
          (case Atoi maxStr of
             None \<Rightarrow> Inr (Some (MaxExpectsIntegerParam maxStr))
           | Some m \<Rightarrow>
               (case val v of
                  VPointer None \<Rightarrow> Inr None
                | VPointer (Some rv) \<Rightarrow> Inr (max_switch rv m)
                | rv \<Rightarrow> Inr (max_switch rv m))))"

definition builtinRequired :: "Value \<Rightarrow> outcome" where
  "builtinRequired v =
     (case val v of
        VPointer None \<Rightarrow> Inr (Some IsRequired)
      | VPointer (Some rv) \<Rightarrow> Inr (if IsZero rv then Some IsRequired else None)
      | rv \<Rightarrow> Inr (if IsZero rv then Some IsRequired else None))"

section \<open>The registry\<close>

type_synonym TagValidationFunc = "Value \<Rightarrow> outcome"

record Validator =
  validators :: "string \<rightharpoonup> TagValidationFunc"

definition minTag :: string where "minTag = ''min''"
definition maxTag :: string where "maxTag = ''max''"
definition eachTag :: string where "eachTag = ''each''"
definition diveTag :: string where "diveTag = ''dive''"
definition requiredTag :: string where "requiredTag = ''required''"

definition RegisterTag :: "Validator \<Rightarrow> string \<Rightarrow> TagValidationFunc \<Rightarrow> Validator" where
  "RegisterTag v tag fn = v\<lparr>validators := (validators v)(tag \<mapsto> fn)\<rparr>"

definition registerBuiltins :: "Validator \<Rightarrow> Validator" where
  "registerBuiltins v =
     RegisterTag (RegisterTag (RegisterTag v minTag builtinMin) maxTag builtinMax)
       requiredTag builtinRequired"

definition NewValidator :: Validator where
  "NewValidator = registerBuiltins \<lparr>validators = Map.empty\<rparr>"

text \<open>\<open>ListValidators\<close> returns the keys in the map's iteration order, which Go leaves
  open; the model gives the set of keys.\<close>

definition ListValidators :: "Validator \<Rightarrow> string set" where
  "ListValidators v = dom (validators v)"

section \<open>The runtime engine\<close>

text \<open>
  \<open>CurrentErrorFormatFunc\<close> is a package variable that the caller may replace; the engine
  takes it as the argument \<open>fmt\<close>. \<open>defaultErrorFormat\<close> is its initial value.
\<close>

type_synonym ErrorFormatFunc = "StructField \<Rightarrow> goval \<Rightarrow> gerror \<Rightarrow> outcome"

definition defaultErrorFormat :: ErrorFormatFunc where
  "defaultErrorFormat fieldType fieldValue err =
     Inr (Some (FieldValidationError (Name fieldType) err fieldValue))"

text \<open>What one pass through a loop body does: go on with the loop, or return from the
  function.\<close>

datatype 'a flow = Continue | Return 'a

text \<open>\<open>fieldValue.Index(i)\<close> for \<open>i\<close> from 0 to \<open>fieldValue.Len() - 1\<close>, on a slice or an array.\<close>

fun elements :: "goval \<Rightarrow> goval list" where
  "elements (VSlice (Some xs)) = xs"
| "elements (VArray xs) = xs"
| "elements _ = []"

fun is_slice_or_array :: "goval \<Rightarrow> bool" where
  "is_slice_or_array (VSlice xs) = True"
| "is_slice_or_array (VArray xs) = True"
| "is_slice_or_array _ = False"

text \<open>
  The \<open>Value\<close> built for one segment, written twice in \<open>proceedTags\<close> (for the field
  and, in the each branch, for an element): the value, the field's name and, when the
  segment holds an \<open>=\<close> (\<open>len(splitted) == 2\<close>), the trimmed text after the first one as
  \<open>param\<close>. Without an \<open>=\<close> the field \<open>param\<close> keeps the zero value of a Go string, the
  empty string.
\<close>

definition segmentValue :: "goval \<Rightarrow> StructField \<Rightarrow> string \<Rightarrow> Value" where
  "segmentValue fieldValue fieldType tag =
     (let splitted = SplitN_eq2 tag;
          withVal = (length splitted = 2)
      in \<lparr>val = fieldValue, name = Name fieldType,
          param = (if withVal then TrimSpace (splitted ! 1) else [])\<rparr>)"

text \<open>The body of the loop \<open>for _, it := range innerTags\<close> of the each branch: one inner
  invocation on one element.\<close>

definition each_step :: "Validator \<Rightarrow> ErrorFormatFunc \<Rightarrow> StructField \<Rightarrow> goval \<Rightarrow> string \<Rightarrow> outcome flow" where
  "each_step v fmt fieldType elem it0 =
     (let it = TrimSpace it0 in
      if it = [] then Continue
      else
        let kv = SplitN_eq2 it;
            innerKey = TrimSpace (kv ! 0);
            eVal = segmentValue elem fieldType it
        in case validators v innerKey of
             None \<Rightarrow> Continue
           | Some validator \<Rightarrow>
               (case validator eVal of
                  Inl p \<Rightarrow> Return (Inl p)
                | Inr (Some err) \<Rightarrow> Return (fmt fieldType elem err)
                | Inr None \<Rightarrow> Continue))"

text \<open>The loop itself, for one element.\<close>

fun each_inner :: "Validator \<Rightarrow> ErrorFormatFunc \<Rightarrow> StructField \<Rightarrow> goval \<Rightarrow> string list \<Rightarrow> outcome flow" where
  "each_inner v fmt fieldType elem [] = Continue"
| "each_inner v fmt fieldType elem (it0 # its) =
     (case each_step v fmt fieldType elem it0 of
        Return r \<Rightarrow> Return r
      | Continue \<Rightarrow> each_inner v fmt fieldType elem its)"

text \<open>The loop \<open>for i := 0; i < fieldValue.Len(); i++\<close> around it.\<close>

fun each_elems :: "Validator \<Rightarrow> ErrorFormatFunc \<Rightarrow> StructField \<Rightarrow> goval list \<Rightarrow> string list \<Rightarrow> outcome flow" where
  "each_elems v fmt fieldType [] innerTags = Continue"
| "each_elems v fmt fieldType (elem # elems) innerTags =
     (case each_inner v fmt fieldType elem innerTags of
        Return r \<Rightarrow> Return r
      | Continue \<Rightarrow> each_elems v fmt fieldType elems innerTags)"

text \<open>The body of the loop \<open>for _, tag := range tags\<close> of \<open>proceedTags\<close>.\<close>

definition proceedTag :: "Validator \<Rightarrow> ErrorFormatFunc \<Rightarrow> goval \<Rightarrow> StructField \<Rightarrow> string \<Rightarrow> outcome flow" where
  "proceedTag v fmt fieldValue fieldType tag0 =
     (let tag = TrimSpace tag0 in
      if tag = [] then Continue
      else
        let splitted = SplitN_eq2 tag;
            tagKey = TrimSpace (splitted ! 0);
            value = segmentValue fieldValue fieldType tag
        in if tagKey = eachTag then
             (if \<not> is_slice_or_array fieldValue
              then Return (fmt fieldType fieldValue EachOnlySliceOrArray)
              else case Param value of
                     Inl p \<Rightarrow> Return (Inl p)
                   | Inr inner \<Rightarrow>
                       (case splitTopLevelByComma (strip_braces (TrimSpace inner)) of
                          Inl err \<Rightarrow> Return (fmt fieldType fieldValue (BraceError err))
                        | Inr innerTags \<Rightarrow>
                            each_elems v fmt fieldType (elements fieldValue) innerTags))
           else case validators v tagKey of
                  None \<Rightarrow> Continue
                | Some validator \<Rightarrow>
                    (case validator value of
                       Inl p \<Rightarrow> Return (Inl p)
                     | Inr (Some err) \<Rightarrow> Return (fmt fieldType fieldValue err)
                     | Inr None \<Rightarrow> Continue))"

fun proceed_loop :: "Validator \<Rightarrow> ErrorFormatFunc \<Rightarrow> goval \<Rightarrow> StructField \<Rightarrow> string list \<Rightarrow> outcome" where
  "proceed_loop v fmt fieldValue fieldType [] = Inr None"
| "proceed_loop v fmt fieldValue fieldType (tag # tags) =
     (case proceedTag v fmt fieldValue fieldType tag of
        Return r \<Rightarrow> r
      | Continue \<Rightarrow> proceed_loop v fmt fieldValue fieldType tags)"

definition proceedTags :: "Validator \<Rightarrow> ErrorFormatFunc \<Rightarrow> goval \<Rightarrow> StructField \<Rightarrow> outcome" where
  "proceedTags v fmt fieldValue fieldType =
     (let rootTag = Tag fieldType in
      if rootTag = [] then Inr None
      else case splitTopLevelByComma rootTag of
             Inl err \<Rightarrow> fmt fieldType fieldValue (BraceError err)
           | Inr tags \<Rightarrow> proceed_loop v fmt fieldValue fieldType tags)"

text \<open>\<open>validateStruct\<close>: the fields in declaration order, up to the first one whose
  \<open>proceedTags\<close> returns an error (or panics).\<close>

fun validateStruct :: "Validator \<Rightarrow> ErrorFormatFunc \<Rightarrow> (StructField \<times> goval) list \<Rightarrow> outcome" where
  "validateStruct v fmt [] = Inr None"
| "validateStruct v fmt ((fieldType, field) # rest) =
     (case proceedTags v fmt field fieldType of
        Inr None \<Rightarrow> validateStruct v fmt rest
      | r \<Rightarrow> r)"

text \<open>
  \<open>Validate\<close>. The receiver is a pointer that may be nil (\<open>None\<close>). A pointer is followed
  once; \<open>Elem\<close> of a nil pointer is the invalid value, which is not a struct.
\<close>

definition Validate :: "Validator option \<Rightarrow> ErrorFormatFunc \<Rightarrow> goval \<Rightarrow> outcome" where
  "Validate vo fmt s =
     (case vo of
        None \<Rightarrow> Inr (Some CannotValidateNil)
      | Some v \<Rightarrow>
          (let rv = (case s of VPointer None \<Rightarrow> VOther True | VPointer (Some x) \<Rightarrow> x | _ \<Rightarrow> s)
           in case rv of
                VStruct fs \<Rightarrow> validateStruct v fmt fs
              | _ \<Rightarrow> Inr (Some CanOnlyValidateStructs)))"

text \<open>
  A field passes when it has no tag, or its tag splits and every segment lets the loop of
  \<open>proceedTags\<close> go on: no validator dispatched for the field or for an element of it
  returned an error or panicked, and nothing was handed to the formatter.
\<close>

definition field_passes :: "Validator \<Rightarrow> ErrorFormatFunc \<Rightarrow> StructField \<times> goval \<Rightarrow> bool" where
  "field_passes v fmt f =
     (case f of (fieldType, fieldValue) \<Rightarrow>
        Tag fieldType = [] \<or>
        (case splitTopLevelByComma (Tag fieldType) of
           Inl err \<Rightarrow> False
         | Inr tags \<Rightarrow> list_all (\<lambda>t. proceedTag v fmt fieldValue fieldType t = Continue) tags))"

section \<open>The two splitters\<close>

text \<open>
  C1. The splitter of the runtime engine and the splitter of the static analyzer compute
  the same function: on every string they return the same list of segments, in the same
  order, or fail with the same brace condition.
\<close>

theorem C1_splitters_agree: "tv_splitTopLevelByComma s = splitTopLevelByComma s"
proof -
  have "tv_split_loop s s 0 ([], 0, 0) = split_loop s s 0 ([], 0, 0)"
    by (rule tv_split_loop_eq)
  then show ?thesis
    by (simp add: tv_splitTopLevelByComma_def splitTopLevelByComma_def)
qed

text \<open>
  C2. The splitter looks at the depth once, after the scan: the string \<open>}{\<close>, whose depth
  is negative after its first byte and 0 at the end, is returned as one segment and no
  unopened-braces condition is raised.
\<close>

theorem C2_negative_dip_accepted:
  "brace_depth ''}'' < 0 \<and> brace_depth ''}{'' = 0 \<and> splitTopLevelByComma ''}{'' = Inr [''}{'']"
  by (simp add: splitTopLevelByComma_def slice_def)

text \<open>
  C7. Whenever the splitter succeeds, its segments joined with commas are the input
  itself, byte for byte; so they are the input up to whitespace as well.
\<close>

theorem C7_split_roundtrip:
  assumes "splitTopLevelByComma s = Inr parts"
  shows "join_comma parts = s"
proof -
  obtain ps d l where run: "split_loop s s 0 ([], 0, 0) = (ps, d, l)"
    by (cases "split_loop s s 0 ([], 0, 0)") auto
  from assms run have parts: "parts = ps @ [slice s l (length s)]"
    by (auto simp: splitTopLevelByComma_def Let_def split: if_splits)
  have "join_comma (ps @ [slice s l (length s)]) = join_comma ([] @ [drop 0 []]) @ s"
    by (rule split_loop_join [OF _ _ _ run]) simp_all
  with parts show ?thesis by simp
qed

theorem C7_split_roundtrip_witness:
  "splitTopLevelByComma ''a, each={b,c} ,,d'' = Inr [''a'', '' each={b,c} '', '''', ''d'']
   \<and> join_comma [''a'', '' each={b,c} '', '''', ''d''] = ''a, each={b,c} ,,d''"
proof -
  have split:
    "splitTopLevelByComma ''a, each={b,c} ,,d'' = Inr [''a'', '' each={b,c} '', '''', ''d'']"
    by (simp add: splitTopLevelByComma_def slice_def)
  from C7_split_roundtrip [OF split] split show ?thesis by simp
qed

section \<open>The registry after construction\<close>

text \<open>
  C3, as the code has it. \<open>NewValidator\<close> registers the three built-in validators under
  the names \<open>min\<close>, \<open>max\<close> and \<open>required\<close>, and nothing else.
\<close>

theorem C3_builtins_registered:
  "ListValidators NewValidator = {''min'', ''max'', ''required''}
   \<and> validators NewValidator ''min'' = Some builtinMin
   \<and> validators NewValidator ''max'' = Some builtinMax
   \<and> validators NewValidator ''required'' = Some builtinRequired"
  by (auto simp: ListValidators_def NewValidator_def registerBuiltins_def RegisterTag_def
      minTag_def maxTag_def requiredTag_def)

text \<open>
  C3, as stated, fails: nothing is registered under the long spellings, so a lookup of
  \<open>minimum\<close> or \<open>maximum\<close> on a fresh validator finds nothing.
\<close>

theorem C3_long_names_absent:
  "validators NewValidator ''minimum'' = None \<and> validators NewValidator ''maximum'' = None"
  by (simp add: NewValidator_def registerBuiltins_def RegisterTag_def
      minTag_def maxTag_def requiredTag_def)

section \<open>The built-in validators on chosen values\<close>

text \<open>
  C4. \<open>builtinMax\<close> returns nil for a nil pointer whatever the parameter: with \<open>max=-1\<close> a
  nil pointer field passes, through the validator and through \<open>Validate\<close>.
\<close>

theorem C4_nil_pointer_passes_negative_max:
  "builtinMax \<lparr>val = VPointer None, name = ''P'', param = ''-1''\<rparr> = Inr None
   \<and> Validate (Some NewValidator) defaultErrorFormat
         (VStruct [(\<lparr>Name = ''P'', Tag = ''max=-1''\<rparr>, VPointer None)]) = Inr None"
  by code_simp

text \<open>
  C8. On a field of an unsigned kind the parameter is converted with \<open>uint64(min)\<close>, which
  wraps a negative number around: the value 5 passes \<open>min=3\<close> and fails \<open>min=-1\<close>, and it
  passes \<open>max=-1\<close> and fails \<open>max=3\<close>.
\<close>

theorem C8_unsigned_not_monotone:
  "builtinMin \<lparr>val = VUint 5, name = ''N'', param = ''3''\<rparr> = Inr None
   \<and> builtinMin \<lparr>val = VUint 5, name = ''N'', param = ''-1''\<rparr> = Inr (Some (ShouldBeAtLeast (- 1)))
   \<and> builtinMax \<lparr>val = VUint 5, name = ''N'', param = ''-1''\<rparr> = Inr None
   \<and> builtinMax \<lparr>val = VUint 5, name = ''N'', param = ''3''\<rparr> = Inr (Some (ShouldBeAtMost 3))"
  by code_simp

section \<open>Order of validation\<close>

lemma TrimSpace_Nil: "TrimSpace [] = []"
  using length_TrimSpace [of "[]"] by simp

lemma SplitN_eq2_first_Nil: "SplitN_eq2 [] ! 0 = []"
  by (simp add: SplitN_eq2_def)

lemma validateStruct_first_failure:
  assumes "\<forall>f\<in>set pre. proceedTags v fmt (snd f) (fst f) = Inr None"
    and "proceedTags v fmt fv ft \<noteq> Inr None"
  shows "validateStruct v fmt (pre @ (ft, fv) # post) = proceedTags v fmt fv ft"
  using assms
proof (induction pre)
  case Nil
  then show ?case by (auto split: sum.splits option.splits)
next
  case (Cons f pre)
  then show ?case by (cases f) simp
qed

lemma proceed_loop_first_return:
  assumes "\<forall>t\<in>set pre. proceedTag v fmt fv ft t = Continue"
    and "proceedTag v fmt fv ft tag = Return r"
  shows "proceed_loop v fmt fv ft (pre @ tag # post) = r"
  using assms by (induction pre) simp_all

lemma each_elems_first_return:
  assumes "\<forall>x\<in>set pre. each_inner v fmt ft x its = Continue"
    and "each_inner v fmt ft e its = Return r"
  shows "each_elems v fmt ft (pre @ e # post) its = Return r"
  using assms by (induction pre) simp_all

lemma each_inner_first_return:
  assumes "\<forall>t\<in>set pre. each_step v fmt ft e t = Continue"
    and "each_step v fmt ft e it = Return r"
  shows "each_inner v fmt ft e (pre @ it # post) = Return r"
  using assms by (induction pre) simp_all

lemma split_each_min1: "splitTopLevelByComma ''each={min=1}'' = Inr [''each={min=1}'']"
  by (simp add: splitTopLevelByComma_def slice_def)

lemma each_min1_facts:
  "TrimSpace ''each={min=1}'' = ''each={min=1}''"
  "SplitN_eq2 ''each={min=1}'' = [''each'', ''{min=1}'']"
  "TrimSpace ''each'' = ''each''"
  "TrimSpace ''{min=1}'' = ''{min=1}''"
  "strip_braces ''{min=1}'' = ''min=1''"
  "splitTopLevelByComma ''min=1'' = Inr [''min=1'']"
  by code_simp+

lemma each_min1_step:
  "each_step NewValidator defaultErrorFormat \<lparr>Name = ''Creds'', Tag = ''each={min=1}''\<rparr>
     (VString []) ''min=1'' =
   Return (Inr (Some (FieldValidationError ''Creds'' (ShouldHaveLengthAtLeast 1) (VString []))))"
  by code_simp

lemma each_min1_field:
  "proceedTags NewValidator defaultErrorFormat (VSlice (Some (VString [] # rest)))
     \<lparr>Name = ''Creds'', Tag = ''each={min=1}''\<rparr> =
   Inr (Some (FieldValidationError ''Creds'' (ShouldHaveLengthAtLeast 1) (VString [])))"
  by (simp add: proceedTags_def split_each_min1 proceedTag_def each_min1_facts eachTag_def
      segmentValue_def Param_def each_min1_step)


lemma proceed_loop_all_continue:
  "list_all (\<lambda>t. proceedTag v fmt fv ft t = Continue) tags \<Longrightarrow>
   proceed_loop v fmt fv ft tags = Inr None"
  by (induction tags) simp_all

lemma field_passes_proceedTags:
  "field_passes v fmt (ft, fv) \<Longrightarrow> proceedTags v fmt fv ft = Inr None"
  by (auto simp: field_passes_def proceedTags_def Let_def proceed_loop_all_continue
      split: sum.splits)

lemma validateStruct_skip_passing:
  "list_all (field_passes v fmt) pre \<Longrightarrow>
   validateStruct v fmt (pre @ rest) = validateStruct v fmt rest"
proof (induction pre)
  case Nil
  show ?case by simp
next
  case (Cons f pre)
  obtain ft fv where f: "f = (ft, fv)" by (cases f)
  with Cons.prems have "proceedTags v fmt fv ft = Inr None"
    by (simp add: field_passes_proceedTags)
  with Cons f show ?case by simp
qed

lemma validateStruct_returns:
  "proceedTags v fmt fv ft = r \<Longrightarrow> r \<noteq> Inr None \<Longrightarrow>
   validateStruct v fmt ((ft, fv) # post) = r"
  by (auto split: sum.splits option.splits)

lemma proceedTags_first_return:
  assumes "Tag ft \<noteq> []" and "splitTopLevelByComma (Tag ft) = Inr (spre @ seg # spost)"
    and "list_all (\<lambda>t. proceedTag v fmt fv ft t = Continue) spre"
    and "proceedTag v fmt fv ft seg = Return r"
  shows "proceedTags v fmt fv ft = r"
proof -
  have "proceed_loop v fmt fv ft (spre @ seg # spost) = r"
    using assms(3,4) by (intro proceed_loop_first_return) (simp_all add: list_all_iff)
  with assms(1,2) show ?thesis by (simp add: proceedTags_def)
qed

lemma plain_segment_fails:
  assumes "TrimSpace seg \<noteq> []" and "TrimSpace (SplitN_eq2 (TrimSpace seg) ! 0) \<noteq> eachTag"
    and "validators v (TrimSpace (SplitN_eq2 (TrimSpace seg) ! 0)) = Some f"
    and "f (segmentValue fv ft (TrimSpace seg)) = Inr (Some err)"
  shows "proceedTag v fmt fv ft seg = Return (fmt ft fv err)"
  using assms by (simp add: proceedTag_def Let_def)

lemma inner_invocation_fails:
  assumes "TrimSpace it \<noteq> []"
    and "validators v (TrimSpace (SplitN_eq2 (TrimSpace it) ! 0)) = Some f"
    and "f (segmentValue e ft (TrimSpace it)) = Inr (Some err)"
  shows "each_step v fmt ft e it = Return (fmt ft e err)"
  using assms by (simp add: each_step_def Let_def)

lemma each_segment_runs:
  assumes "TrimSpace (SplitN_eq2 (TrimSpace seg) ! 0) = eachTag"
    and "is_slice_or_array fv"
    and "Param (segmentValue fv ft (TrimSpace seg)) = Inr inner"
    and "splitTopLevelByComma (strip_braces (TrimSpace inner)) = Inr innerTags"
  shows "proceedTag v fmt fv ft seg = each_elems v fmt ft (elements fv) innerTags"
proof -
  from assms(1) have "TrimSpace seg \<noteq> []"
    by (auto simp: eachTag_def SplitN_eq2_first_Nil TrimSpace_Nil)
  with assms show ?thesis by (simp add: proceedTag_def Let_def)
qed

lemma each_segment_fails:
  assumes key: "TrimSpace (SplitN_eq2 (TrimSpace seg) ! 0) = eachTag"
    and fv: "fv = VSlice (Some (epre @ e # epost)) \<or> fv = VArray (epre @ e # epost)"
    and inner: "Param (segmentValue fv ft (TrimSpace seg)) = Inr inner"
    and split: "splitTopLevelByComma (strip_braces (TrimSpace inner)) = Inr (ipre @ it # ipost)"
    and elems: "list_all (\<lambda>x. each_inner v fmt ft x (ipre @ it # ipost) = Continue) epre"
    and invs: "list_all (\<lambda>t. each_step v fmt ft e t = Continue) ipre"
    and it: "TrimSpace it \<noteq> []"
      "validators v (TrimSpace (SplitN_eq2 (TrimSpace it) ! 0)) = Some f"
      "f (segmentValue e ft (TrimSpace it)) = Inr (Some err)"
  shows "proceedTag v fmt fv ft seg = Return (fmt ft e err)"
proof -
  from fv have sa: "is_slice_or_array fv" and el: "elements fv = epre @ e # epost"
    by auto
  have step: "each_step v fmt ft e it = Return (fmt ft e err)"
    using it by (rule inner_invocation_fails)
  have "each_inner v fmt ft e (ipre @ it # ipost) = Return (fmt ft e err)"
    using invs step by (intro each_inner_first_return) (simp_all add: list_all_iff)
  then have "each_elems v fmt ft (epre @ e # epost) (ipre @ it # ipost) = Return (fmt ft e err)"
    using elems by (intro each_elems_first_return) (simp_all add: list_all_iff)
  with each_segment_runs [OF key sa inner split] el show ?thesis by simp
qed




section \<open>The parameter of a segment\<close>

text \<open>
  C5, as the code has it. \<open>Value.Param\<close> panics exactly when the stored parameter is the
  empty string: when the segment holds no \<open>=\<close>, and also when the text after its first
  \<open>=\<close> is empty or only whitespace. In every other case it returns that text, trimmed.
\<close>

theorem C5_param_missing_iff_empty:
  "(Param (segmentValue fv ft seg) = Inl (ParamNotSet (Name ft))
      \<longleftrightarrow> \<not> (CHR ''='' \<in> set seg \<and> TrimSpace (tl (dropWhile (\<lambda>c. c \<noteq> CHR ''='') seg)) \<noteq> []))
   \<and> (CHR ''='' \<in> set seg \<and> TrimSpace (tl (dropWhile (\<lambda>c. c \<noteq> CHR ''='') seg)) \<noteq> [] \<longrightarrow>
        Param (segmentValue fv ft seg) = Inr (TrimSpace (tl (dropWhile (\<lambda>c. c \<noteq> CHR ''='') seg))))"
  by (simp add: Param_def segmentValue_def SplitN_eq2_def)

theorem C5_param_missing_iff_empty_witness:
  "Param (segmentValue (VString ''ab'') \<lparr>Name = ''F'', Tag = ''min= 3 ''\<rparr> ''min= 3 '') = Inr ''3''
   \<and> Param (segmentValue (VString ''ab'') \<lparr>Name = ''F'', Tag = ''min''\<rparr> ''min'') = Inl (ParamNotSet ''F'')
   \<and> Param (segmentValue (VString ''ab'') \<lparr>Name = ''F'', Tag = ''min= ''\<rparr> ''min= '') = Inl (ParamNotSet ''F'')"
proof -
  have t1: "TrimSpace '' 3 '' = ''3''"
    by code_simp
  have t2: "TrimSpace '' '' = []"
    by code_simp
  have "Param (segmentValue (VString ''ab'') \<lparr>Name = ''F'', Tag = ''min= 3 ''\<rparr> ''min= 3 '') = Inr ''3''"
    using C5_param_missing_iff_empty [of "VString ''ab''" "\<lparr>Name = ''F'', Tag = ''min= 3 ''\<rparr>" "''min= 3 ''"]
    by (simp add: t1)
  moreover
  have "Param (segmentValue (VString ''ab'') \<lparr>Name = ''F'', Tag = ''min''\<rparr> ''min'') = Inl (ParamNotSet ''F'')"
    using C5_param_missing_iff_empty [of "VString ''ab''" "\<lparr>Name = ''F'', Tag = ''min''\<rparr>" "''min''"]
    by simp
  moreover
  have "Param (segmentValue (VString ''ab'') \<lparr>Name = ''F'', Tag = ''min= ''\<rparr> ''min= '') = Inl (ParamNotSet ''F'')"
    using C5_param_missing_iff_empty [of "VString ''ab''" "\<lparr>Name = ''F'', Tag = ''min= ''\<rparr>" "''min= ''"]
    by (simp add: t2)
  ultimately show ?thesis by (intro conjI)
qed

text \<open>
  C5, as stated, fails: the segment \<open>min=\<close> supplies the empty string as its parameter,
  the \<open>Value\<close> built for it is the one built for \<open>min\<close>, and \<open>Param\<close> panics on it, so
  \<open>Validate\<close> panics on a field tagged \<open>min=\<close>.
\<close>

theorem C5_empty_parameter_panics:
  "SplitN_eq2 ''min='' = [''min'', []]
   \<and> segmentValue (VString ''ab'') \<lparr>Name = ''F'', Tag = ''min=''\<rparr> ''min='' =
       segmentValue (VString ''ab'') \<lparr>Name = ''F'', Tag = ''min=''\<rparr> ''min''
   \<and> Param (segmentValue (VString ''ab'') \<lparr>Name = ''F'', Tag = ''min=''\<rparr> ''min='') =
       Inl (ParamNotSet ''F'')
   \<and> Validate (Some NewValidator) defaultErrorFormat
         (VStruct [(\<lparr>Name = ''F'', Tag = ''min=''\<rparr>, VString ''ab'')]) = Inl (ParamNotSet ''F'')"
  by code_simp

section \<open>The reserved token dive\<close>

lemma dive_key_nonempty:
  "TrimSpace (SplitN_eq2 s ! 0) = ''dive'' \<Longrightarrow> s \<noteq> []"
  by (auto simp: SplitN_eq2_first_Nil TrimSpace_Nil)

lemma dive_runtime:
  assumes "TrimSpace (SplitN_eq2 (TrimSpace seg) ! 0) = diveTag" and "validators v diveTag = None"
  shows "proceedTag v fmt fv ft seg = Continue"
proof -
  from assms(1) have "TrimSpace seg \<noteq> []"
    by (auto simp: diveTag_def dest: dive_key_nonempty)
  with assms show ?thesis
    by (simp add: proceedTag_def Let_def diveTag_def eachTag_def)
qed

lemma dive_facts:
  "splitTopLevelByComma ''dive'' = Inr [''dive'']"
  "TrimSpace ''dive'' = ''dive''"
  "SplitN_eq2 ''dive'' = [''dive'']"
  by code_simp+

lemma dive_analyzer:
  assumes "TrimSpace (SplitN_eq2 part ! 0) = ''dive''"
  shows "validateTagPart tv pos fieldName fullTag part = tv"
  using assms
  by (simp add: validateTagPart.simps [of tv pos fieldName fullTag part] Let_def
      validatorExists_def builtinValidators_def validateValidatorParam_def)

lemma proceed_loop_skip:
  "proceedTag v fmt fv ft tag = Continue \<Longrightarrow>
   proceed_loop v fmt fv ft (pre @ tag # post) = proceed_loop v fmt fv ft (pre @ post)"
  by (induction pre) (simp_all split: flow.splits)

lemma each_inner_skip:
  "each_step v fmt ft e it = Continue \<Longrightarrow>
   each_inner v fmt ft e (pre @ it # post) = each_inner v fmt ft e (pre @ post)"
  by (induction pre) (simp_all split: flow.splits)

lemma each_elems_skip:
  "(\<And>e. each_step v fmt ft e it = Continue) \<Longrightarrow>
   each_elems v fmt ft xs (pre @ it # post) = each_elems v fmt ft xs (pre @ post)"
  by (induction xs) (simp_all add: each_inner_skip split: flow.splits)

lemma dive_inner:
  assumes "TrimSpace (SplitN_eq2 (TrimSpace it) ! 0) = diveTag" and "validators v diveTag = None"
  shows "each_step v fmt ft e it = Continue"
  using assms by (simp add: each_step_def Let_def)

lemma each_dive_facts:
  "splitTopLevelByComma ''each={dive}'' = Inr [''each={dive}'']"
  "TrimSpace ''each={dive}'' = ''each={dive}''"
  "SplitN_eq2 ''each={dive}'' = [''each'', ''{dive}'']"
  "TrimSpace ''each'' = ''each''"
  "TrimSpace ''{dive}'' = ''{dive}''"
  "strip_braces ''{dive}'' = ''dive''"
  by code_simp+

lemma NewValidator_dive: "validators NewValidator diveTag = None"
  by (simp add: NewValidator_def registerBuiltins_def RegisterTag_def
      minTag_def maxTag_def requiredTag_def diveTag_def)

lemma each_dive_field:
  assumes "is_slice_or_array fv"
  shows "proceedTags NewValidator fmt fv \<lparr>Name = n, Tag = ''each={dive}''\<rparr> = Inr None"
proof -
  let ?ft = "\<lparr>Name = n, Tag = ''each={dive}''\<rparr>"
  have step: "each_step NewValidator fmt ?ft e ''dive'' = Continue" for e
    by (rule dive_inner [OF _ NewValidator_dive]) (simp add: dive_facts diveTag_def)
  have "each_elems NewValidator fmt ?ft xs [''dive''] = Continue" for xs
    by (induction xs) (simp_all add: step)
  moreover
  have "proceedTag NewValidator fmt fv ?ft ''each={dive}'' =
        each_elems NewValidator fmt ?ft (elements fv) [''dive'']"
    by (rule each_segment_runs [where inner = "''{dive}''"])
      (simp_all add: assms each_dive_facts dive_facts eachTag_def segmentValue_def Param_def)
  ultimately show ?thesis
    by (simp add: proceedTags_def each_dive_facts)
qed




section \<open>An each segment without a parameter\<close>

lemma bare_each_facts:
  "splitTopLevelByComma ''each'' = Inr [''each'']"
  "TrimSpace ''each'' = ''each''"
  "SplitN_eq2 ''each'' = [''each'']"
  by code_simp+

lemma bare_each_field:
  assumes "is_slice_or_array fv"
  shows "proceedTags v fmt fv \<lparr>Name = n, Tag = ''each''\<rparr> = Inl (ParamNotSet n)"
  using assms
  by (simp add: proceedTags_def proceedTag_def bare_each_facts eachTag_def segmentValue_def
      Param_def)

text \<open>
  C10, as the code has it. On a field of slice or array kind whose tag is exactly \<open>each\<close>,
  \<open>proceedTags\<close> panics with the missing-parameter panic of \<open>Value.Param\<close>, for every
  registry and formatter. \<open>Validate\<close>, given a validator and a record (or a pointer to one)
  that holds such a field, panics in the same way when every field declared before it
  passes.
\<close>

theorem C10_bare_each_panics:
  "(is_slice_or_array fv \<longrightarrow>
      proceedTags v fmt fv \<lparr>Name = n, Tag = ''each''\<rparr> = Inl (ParamNotSet n))
   \<and> (is_slice_or_array fv \<and> (\<forall>f\<in>set pre. proceedTags v fmt (snd f) (fst f) = Inr None) \<longrightarrow>
        Validate (Some v) fmt (VStruct (pre @ (\<lparr>Name = n, Tag = ''each''\<rparr>, fv) # post)) =
          Inl (ParamNotSet n)
        \<and> Validate (Some v) fmt
            (VPointer (Some (VStruct (pre @ (\<lparr>Name = n, Tag = ''each''\<rparr>, fv) # post)))) =
          Inl (ParamNotSet n))"
proof (intro conjI impI)
  assume "is_slice_or_array fv"
  then show "proceedTags v fmt fv \<lparr>Name = n, Tag = ''each''\<rparr> = Inl (ParamNotSet n)"
    by (rule bare_each_field)
next
  assume a: "is_slice_or_array fv \<and> (\<forall>f\<in>set pre. proceedTags v fmt (snd f) (fst f) = Inr None)"
  then have field: "proceedTags v fmt fv \<lparr>Name = n, Tag = ''each''\<rparr> = Inl (ParamNotSet n)"
    by (simp add: bare_each_field)
  have "validateStruct v fmt (pre @ (\<lparr>Name = n, Tag = ''each''\<rparr>, fv) # post) =
        proceedTags v fmt fv \<lparr>Name = n, Tag = ''each''\<rparr>"
    by (rule validateStruct_first_failure) (use a field in simp_all)
  with field
  have all: "validateStruct v fmt (pre @ (\<lparr>Name = n, Tag = ''each''\<rparr>, fv) # post) =
             Inl (ParamNotSet n)"
    by simp
  from all
  show "Validate (Some v) fmt (VStruct (pre @ (\<lparr>Name = n, Tag = ''each''\<rparr>, fv) # post)) =
        Inl (ParamNotSet n)"
    by (simp add: Validate_def)
  from all
  show "Validate (Some v) fmt
          (VPointer (Some (VStruct (pre @ (\<lparr>Name = n, Tag = ''each''\<rparr>, fv) # post)))) =
        Inl (ParamNotSet n)"
    by (simp add: Validate_def)
qed

theorem C10_bare_each_panics_witness:
  "proceedTags NewValidator defaultErrorFormat (VArray []) \<lparr>Name = ''Xs'', Tag = ''each''\<rparr> =
     Inl (ParamNotSet ''Xs'')
   \<and> Validate (Some NewValidator) defaultErrorFormat
       (VStruct ([(\<lparr>Name = ''A'', Tag = ''required''\<rparr>, VString ''a'')] @
                 (\<lparr>Name = ''Xs'', Tag = ''each''\<rparr>, VSlice (Some [VString ''x''])) #
                 [(\<lparr>Name = ''B'', Tag = ''min=1''\<rparr>, VString [])])) =
     Inl (ParamNotSet ''Xs'')"
proof -
  have p: "proceedTags NewValidator defaultErrorFormat (VString ''a'')
             \<lparr>Name = ''A'', Tag = ''required''\<rparr> = Inr None"
    by code_simp
  note all = C10_bare_each_panics [where v = NewValidator and fmt = defaultErrorFormat]
  have "proceedTags NewValidator defaultErrorFormat (VArray []) \<lparr>Name = ''Xs'', Tag = ''each''\<rparr> =
        Inl (ParamNotSet ''Xs'')"
    by (rule all [THEN conjunct1, rule_format]) simp
  moreover
  have "Validate (Some NewValidator) defaultErrorFormat
         (VStruct ([(\<lparr>Name = ''A'', Tag = ''required''\<rparr>, VString ''a'')] @
                   (\<lparr>Name = ''Xs'', Tag = ''each''\<rparr>, VSlice (Some [VString ''x''])) #
                   [(\<lparr>Name = ''B'', Tag = ''min=1''\<rparr>, VString [])])) =
        Inl (ParamNotSet ''Xs'')"
    by (rule all [THEN conjunct2, rule_format, THEN conjunct1]) (simp add: p)
  ultimately show ?thesis by (intro conjI)
qed

text \<open>
  C10, as stated, fails: when a field declared before the each field fails, \<open>Validate\<close>
  returns that field's error and never reaches the each field.
\<close>

theorem C10_earlier_failure_returns:
  "Validate (Some NewValidator) defaultErrorFormat
     (VStruct [(\<lparr>Name = ''A'', Tag = ''required''\<rparr>, VString []),
               (\<lparr>Name = ''Xs'', Tag = ''each''\<rparr>, VSlice (Some [VString ''x'']))]) =
   Inr (Some (FieldValidationError ''A'' IsRequired (VString [])))"
  by code_simp

end
